theory Spec2Isabelle
  imports Complex_Main "HOL-Library.Char_ord" "HOL-Library.List_Lexorder"
begin

section \<open>Python values used by bzt/modules/reporting.py\<close>

text \<open>
  Exceptions are values: a call returns \<open>Inl e\<close> when the Python raises \<open>e\<close> and
  \<open>Inr v\<close> when it returns \<open>v\<close>.
\<close>

datatype py_error =
    AttributeError string
  | KeyError string
  | ValueError string
  | OSError string
  | TypeError string
  | ZeroDivisionError
  | OverflowError

definition nl :: string where
  "nl = [CHR 0x0A]"

definition sq :: string where
  "sq = [CHR 0x27]"

subsection \<open>str() of an integer\<close>

definition digit_char :: "nat \<Rightarrow> char" where
  "digit_char d = char_of (48 + d)"

function str_nat :: "nat \<Rightarrow> string" where
  "str_nat n = (if n < 10 then [digit_char n] else str_nat (n div 10) @ [digit_char (n mod 10)])"
  by pat_completeness auto
termination
  by (relation "measure id") auto

declare str_nat.simps [simp del]

definition str_int :: "int \<Rightarrow> string" where
  "str_int i = (if i < 0 then CHR ''-'' # str_nat (nat (- i)) else str_nat (nat i))"

subsection \<open>str.replace and str.join\<close>

text \<open>
  \<open>s.replace(old, new)\<close>: every non-overlapping occurrence of \<open>old\<close>, scanning from the
  left, is replaced by \<open>new\<close>. With an empty \<open>old\<close> Python inserts \<open>new\<close> before every
  character and at the end.
\<close>

function replace :: "string \<Rightarrow> string \<Rightarrow> string \<Rightarrow> string" where
  "replace old new [] = (if old = [] then new else [])"
| "replace old new (c # cs) =
     (if old = [] then new @ c # replace old new cs
      else if take (length old) (c # cs) = old
        then new @ replace old new (drop (length old) (c # cs))
      else c # replace old new cs)"
  by pat_completeness auto
termination
  by (relation "measure (\<lambda>(old, new, s). length s)") auto

text \<open>\<open>sep.join(xs)\<close>.\<close>

fun join :: "string \<Rightarrow> string list \<Rightarrow> string" where
  "join sep [] = []"
| "join sep [x] = x"
| "join sep (x # y # ys) = x @ sep @ join sep (y # ys)"

section \<open>JUnitXMLWriter\<close>

text \<open>
  The writer holds the file object \<open>fds\<close> and the list \<open>endings\<close> of pending close tags.
  The file object is one that accepts the strings written to it; it is modelled by the
  sequence of strings passed to \<open>fds.write\<close>, oldest first, and the file's content is
  their concatenation. \<open>endings\<close> is a Python list used as a
  stack: \<open>append\<close> adds at the end and \<open>pop()\<close> removes the last item.
\<close>

record writer =
  fds :: "string list"
  endings :: "string list"

definition fds_write :: "string \<Rightarrow> writer \<Rightarrow> writer" where
  "fds_write s w = w\<lparr>fds := fds w @ [s]\<rparr>"

definition write_header :: "writer \<Rightarrow> writer" where
  "write_header w =
     fds_write (''<?xml version='' @ sq @ ''1.0'' @ sq @ '' encoding='' @ sq @ ''UTF-8'' @ sq
                @ ''?>'' @ nl) w"

text \<open>\<open>JUnitXMLWriter.__init__(fds)\<close>.\<close>

definition JUnitXMLWriter :: "string list \<Rightarrow> writer" where
  "JUnitXMLWriter f = write_header \<lparr>fds = f, endings = []\<rparr>"

definition closing_tag :: "string \<Rightarrow> string" where
  "closing_tag element_name = ''</'' @ element_name @ ''>'' @ nl"

definition write_attr :: "string \<times> string \<Rightarrow> writer \<Rightarrow> writer" where
  "write_attr kv w = fds_write ('' '' @ fst kv @ ''='' @ sq @ snd kv @ sq) w"

text \<open>
  \<open>add_element(element_name, text, close, **kwargs)\<close>; \<open>kwargs\<close> is the keyword
  dictionary in its iteration order.
\<close>

definition add_element ::
  "string \<Rightarrow> string \<Rightarrow> bool \<Rightarrow> (string \<times> string) list \<Rightarrow> writer \<Rightarrow> writer" where
  "add_element element_name text close kwargs w =
     (let w1 = fds_write (''<'' @ element_name) w;
          w2 = fold write_attr kwargs w1;
          w3 = fds_write (''>'' @ nl) w2;
          w4 = (if text \<noteq> [] then fds_write nl (fds_write text w3) else w3)
      in if close then fds_write (closing_tag element_name) w4
         else w4\<lparr>endings := endings w4 @ [closing_tag element_name]\<rparr>)"

definition add_testsuite :: "bool \<Rightarrow> (string \<times> string) list \<Rightarrow> writer \<Rightarrow> writer" where
  "add_testsuite close kwargs w = add_element ''testsuite'' [] close kwargs w"

definition add_testcase :: "bool \<Rightarrow> (string \<times> string) list \<Rightarrow> writer \<Rightarrow> writer" where
  "add_testcase close kwargs w = add_element ''testcase'' [] close kwargs w"

definition add_error :: "bool \<Rightarrow> (string \<times> string) list \<Rightarrow> writer \<Rightarrow> writer" where
  "add_error close kwargs w = add_element ''error'' [] close kwargs w"

text \<open>
  A method that writes returns \<open>Inr w\<close> with the writer \<open>w\<close> it leaves, or
  \<open>Inl (e, w)\<close> when it raises \<open>e\<close> with the writer as \<open>w\<close> at that moment.
\<close>

type_synonym written = "(py_error \<times> writer) + writer"

text \<open>
  \<open>close_element()\<close>. The result is a sum so that what happens on an empty stack is a
  statement about the returned value; the method has no \<open>raise\<close>, and both branches
  return normally.
\<close>

definition close_element :: "writer \<Rightarrow> written" where
  "close_element w =
     (if endings w \<noteq> []
      then Inr (fds_write (last (endings w)) (w\<lparr>endings := butlast (endings w)\<rparr>))
      else Inr w)"

definition raw_write :: "string \<Rightarrow> writer \<Rightarrow> writer" where
  "raw_write data w = fds_write data w"

section \<open>URL parsing\<close>

text \<open>
  Modelled from the spec: \<open>parse.urlparse\<close> is imported from \<open>bzt.six\<close>, which is not
  among the sources. The spec (4.3) names the six components it yields: scheme, host
  (\<open>netloc\<close>), path, params, query and fragment. \<open>__convert_label_name\<close> below takes the
  parser as a parameter, so the general statements about it hold for every parser; the
  definitions of this section split a URL the way the standard library function that
  \<open>bzt.six\<close> re-exports does, and serve to evaluate concrete labels.
\<close>

record parse_result =
  scheme :: string
  netloc :: string
  path :: string
  params :: string
  query :: string
  fragment :: string

text \<open>Modelled from the spec: \<open>s.find(c, start)\<close> and \<open>s.rfind(c)\<close>, None for -1.\<close>

definition find_from :: "char \<Rightarrow> nat \<Rightarrow> string \<Rightarrow> nat option" where
  "find_from c start s =
     (if c \<in> set (drop start s)
      then Some (start + length (takeWhile (\<lambda>x. x \<noteq> c) (drop start s)))
      else None)"

definition rfind :: "char \<Rightarrow> string \<Rightarrow> nat option" where
  "rfind c s =
     (if c \<in> set s then Some (length s - 1 - length (takeWhile (\<lambda>x. x \<noteq> c) (rev s)))
      else None)"

text \<open>Modelled from the spec: \<open>s.split(c, 1)\<close> for a string that contains \<open>c\<close>.\<close>

definition split_once :: "char \<Rightarrow> string \<Rightarrow> string \<times> string" where
  "split_once c s = (takeWhile (\<lambda>x. x \<noteq> c) s, drop 1 (dropWhile (\<lambda>x. x \<noteq> c) s))"

definition scheme_chars :: string where
  "scheme_chars = ''abcdefghijklmnopqrstuvwxyzABCDEFGHIJKLMNOPQRSTUVWXYZ0123456789+-.''"

definition lower_char :: "char \<Rightarrow> char" where
  "lower_char c =
     (if (65::nat) \<le> of_char c \<and> of_char c \<le> (90::nat) then char_of (of_char c + (32::nat))
      else c)"

text \<open>
  Modelled from the spec: the host part after a leading \<open>//\<close> ends at the first of
  \<open>/\<close>, \<open>?\<close> and \<open>#\<close>.
\<close>

definition splitnetloc :: "string \<Rightarrow> string \<times> string" where
  "splitnetloc url =
     (takeWhile (\<lambda>c. c \<notin> set ''/?#'') (drop 2 url),
      dropWhile (\<lambda>c. c \<notin> set ''/?#'') (drop 2 url))"

text \<open>
  Modelled from the spec: the scheme is what precedes the first colon, when it consists
  of scheme characters and what follows is not a port number; \<open>http\<close> is taken as a
  scheme without the port check.
\<close>

definition split_scheme :: "string \<Rightarrow> string \<times> string" where
  "split_scheme url =
     (case find_from CHR '':'' 0 url of
        None \<Rightarrow> ([], url)
      | Some i \<Rightarrow>
          if i = 0 then ([], url)
          else if take i url = ''http'' then (''http'', drop (i + 1) url)
          else if list_all (\<lambda>c. c \<in> set scheme_chars) (take i url)
                  \<and> (drop (i + 1) url = []
                       \<or> list_ex (\<lambda>c. c \<notin> set ''0123456789'') (drop (i + 1) url))
            then (map lower_char (take i url), drop (i + 1) url)
          else ([], url))"

text \<open>
  Modelled from the spec: \<open>urlsplit\<close> yields scheme, host, path, query and fragment, and
  raises ValueError on a host with an unmatched square bracket.
\<close>

definition urlsplit :: "string \<Rightarrow> py_error + (string \<times> string \<times> string \<times> string \<times> string)" where
  "urlsplit url0 =
     (let (sch, url1) = split_scheme url0;
          (nloc, url2) = (if take 2 url1 = ''//'' then splitnetloc url1 else ([], url1))
      in if (CHR ''['' \<in> set nloc \<and> CHR '']'' \<notin> set nloc)
            \<or> (CHR '']'' \<in> set nloc \<and> CHR ''['' \<notin> set nloc)
         then Inl (ValueError ''Invalid IPv6 URL'')
         else
           let (url3, frag) = (if CHR ''#'' \<in> set url2 then split_once CHR ''#'' url2 else (url2, []));
               (url4, qry) = (if CHR ''?'' \<in> set url3 then split_once CHR ''?'' url3 else (url3, []))
           in Inr (sch, nloc, url4, qry, frag))"

definition uses_params :: "string list" where
  "uses_params = [''ftp'', ''hdl'', ''prospero'', ''http'', ''imap'', ''https'', ''shttp'',
                  ''rtsp'', ''rtspu'', ''sip'', ''sips'', ''mms'', [], ''sftp'', ''tel'']"

text \<open>
  Modelled from the spec: the params are what follows the first semicolon of the last
  path segment.
\<close>

definition splitparams :: "string \<Rightarrow> string \<times> string" where
  "splitparams url =
     (case (case rfind CHR ''/'' url of
              Some k \<Rightarrow> find_from CHR '';'' k url
            | None \<Rightarrow> find_from CHR '';'' 0 url) of
        None \<Rightarrow> (url, [])
      | Some i \<Rightarrow> (take i url, drop (i + 1) url))"

text \<open>Modelled from the spec: \<open>parse.urlparse(url)\<close>.\<close>

definition urlparse :: "string \<Rightarrow> py_error + parse_result" where
  "urlparse url =
     (case urlsplit url of
        Inl e \<Rightarrow> Inl e
      | Inr (sch, nloc, url1, qry, frag) \<Rightarrow>
          let (url2, prm) = (if sch \<in> set uses_params \<and> CHR '';'' \<in> set url1
                             then splitparams url1 else (url1, []))
          in Inr \<lparr>scheme = sch, netloc = nloc, path = url2, params = prm,
                  query = qry, fragment = frag\<rparr>)"

section \<open>Label normalization\<close>

text \<open>
  \<open>JUnitXMLReporter.__convert_label_name(url)\<close>, with the parser \<open>parse.urlparse\<close> as
  the parameter \<open>parse\<close>. An exception of the parser propagates.
\<close>

definition convert_label_name ::
  "(string \<Rightarrow> py_error + parse_result) \<Rightarrow> string \<Rightarrow> py_error + (string \<times> string)" where
  "convert_label_name parse url =
     (case parse url of
        Inl e \<Rightarrow> Inl e
      | Inr parsed_url \<Rightarrow>
          if scheme parsed_url \<noteq> []
          then Inr (scheme parsed_url @ ''.'' @ replace ''.'' ''_'' (netloc parsed_url),
                    join ''.'' [replace ''.'' ''_'' (path parsed_url),
                                replace ''.'' ''_'' (params parsed_url),
                                replace ''.'' ''_'' (query parsed_url),
                                replace ''.'' ''_'' (fragment parsed_url)])
          else Inr (url, url))"

text \<open>The spec's wording of the replacement: each dot becomes an underscore.\<close>

definition dots_to_underscores :: "string \<Rightarrow> string" where
  "dots_to_underscores s = map (\<lambda>c. if c = CHR ''.'' then CHR ''_'' else c) s"

text \<open>
  The spec's wording of the class name uses the host of the URL: the authority
  (\<open>netloc\<close>) without the userinfo, which ends at the last \<open>@\<close>, and without the
  port, which follows the colon after the host; a host in square brackets ends at the
  closing bracket.
\<close>

definition spec_host :: "string \<Rightarrow> string" where
  "spec_host nloc =
     (let hostport = rev (takeWhile (\<lambda>c. c \<noteq> CHR ''@'') (rev nloc))
      in if take 1 hostport = ''['' \<and> CHR '']'' \<in> set hostport
         then takeWhile (\<lambda>c. c \<noteq> CHR '']'') hostport @ '']''
         else takeWhile (\<lambda>c. c \<noteq> CHR '':'') hostport)"

definition spec_class_name :: "parse_result \<Rightarrow> string" where
  "spec_class_name u = scheme u @ ''.'' @ dots_to_underscores (spec_host (netloc u))"

section \<open>Aggregated statistics\<close>

text \<open>
  One entry of \<open>KPISet.ERRORS\<close>: a dictionary with the keys \<open>rc\<close>, \<open>msg\<close>, \<open>cnt\<close> and
  \<open>urls\<close>; \<open>urls\<close> is a Counter from URL to count, given in its iteration order.
\<close>

record error_entry =
  rc :: string
  msg :: string
  cnt :: int
  urls :: "(string \<times> int) list"

text \<open>The fields of a KPISet that the reporters of this module read.\<close>

record kpiset =
  sample_count :: int
  successes :: int
  failures :: int
  errors :: "error_entry list"

text \<open>
  \<open>DataPoint.CUMULATIVE\<close>: a dictionary from label to KPISet, as an association list; a
  lookup takes the first entry of a key, and the keys are taken without repetition.
\<close>

type_synonym cumulative = "(string \<times> kpiset) list"

definition dict_keys :: "('k \<times> 'v) list \<Rightarrow> 'k list" where
  "dict_keys d = remdups (map fst d)"

definition dict_get :: "(string \<times> 'v) list \<Rightarrow> string \<Rightarrow> py_error + 'v" where
  "dict_get d k = (case map_of d k of None \<Rightarrow> Inl (KeyError k) | Some v \<Rightarrow> Inr v)"

text \<open>Sequencing of calls that may raise.\<close>

definition and_then :: "'e + 'a \<Rightarrow> ('a \<Rightarrow> 'e + 'b) \<Rightarrow> 'e + 'b" where
  "and_then r f = (case r of Inl e \<Rightarrow> Inl e | Inr v \<Rightarrow> f v)"

section \<open>FinalStatus\<close>

text \<open>
  \<open>float(i)\<close> of an integer raises OverflowError beyond the range of a double; within
  the range the double is represented by the real number it stands for, and its rounding
  is not modelled.
\<close>

definition py_float :: "int \<Rightarrow> py_error + real" where
  "py_float i = (if \<bar>i\<bar> \<ge> 2 ^ 1024 - 2 ^ 970 then Inl OverflowError else Inr (real_of_int i))"

text \<open>A call \<open>self.log.info(fmt, args)\<close> is recorded with its format and arguments.\<close>

datatype log_arg = ArgInt int | ArgFloat real

type_synonym log = "(string \<times> log_arg list) list"

text \<open>
  \<open>FinalStatus.__report_samples_count(summary_kpi_set)\<close>: the quotient
  \<open>100 * failures / float(sample_count)\<close> converts the divisor, then the dividend, and
  raises ZeroDivisionError on a zero divisor.
\<close>

definition report_samples_count :: "kpiset \<Rightarrow> log \<Rightarrow> py_error + log" where
  "report_samples_count summary_kpi_set lg =
     and_then (py_float (sample_count summary_kpi_set)) (\<lambda>divisor.
     and_then (py_float (100 * failures summary_kpi_set)) (\<lambda>dividend.
       if divisor = 0 then Inl ZeroDivisionError
       else Inr (lg @ [(''Samples count: %s, %.2f%% failures'',
                        [ArgInt (sample_count summary_kpi_set), ArgFloat (dividend / divisor)])])))"

section \<open>JUnitXMLReporter: the sample-labels report\<close>

text \<open>\<open>count_errors(summary_kpi_set)\<close>.\<close>

definition count_errors :: "kpiset \<Rightarrow> int" where
  "count_errors summary_kpi_set =
     fold (\<lambda>error err_counter. fold (\<lambda>url_count c. c + snd url_count) (urls error) err_counter)
       (errors summary_kpi_set) 0"

definition err_template :: "error_entry \<Rightarrow> string" where
  "err_template error =
     ''Error code: '' @ rc error @ '', Message: '' @ msg error @ '', count: ''
     @ str_int (cnt error) @ nl"

definition url_err_template :: "string \<times> int \<Rightarrow> string" where
  "url_err_template url_count =
     ''URL: '' @ fst url_count @ '', Error count '' @ str_int (snd url_count) @ nl"

text \<open>
  \<open>write_errors(xml_writer, summary_kpi_set)\<close>: the state of the two nested loops is
  the writer and the string \<open>urls_err_string\<close>.
\<close>

definition write_errors_url :: "string \<times> int \<Rightarrow> writer \<times> string \<Rightarrow> writer \<times> string" where
  "write_errors_url url_count st =
     (let urls_err_string = snd st @ url_err_template url_count
      in (raw_write urls_err_string (fst st), urls_err_string))"

definition write_errors_entry :: "error_entry \<Rightarrow> writer \<times> string \<Rightarrow> writer \<times> string" where
  "write_errors_entry error st =
     fold write_errors_url (urls error) (raw_write (err_template error) (fst st), snd st)"

definition write_errors :: "writer \<Rightarrow> kpiset \<Rightarrow> writer" where
  "write_errors xml_writer summary_kpi_set =
     fst (fold write_errors_entry (errors summary_kpi_set) (xml_writer, []))"

definition summary_report_template :: "string \<Rightarrow> string \<Rightarrow> string \<Rightarrow> string \<Rightarrow> string" where
  "summary_report_template success throughput fail_s errs =
     ''Success: '' @ success @ '', Sample count: '' @ throughput @ '', Failures: '' @ fail_s
     @ '', Errors: '' @ errs @ nl"

text \<open>\<open>write_summary_report(xml_writer, summary_kpiset)\<close>.\<close>

definition write_summary_report :: "writer \<Rightarrow> kpiset \<Rightarrow> written" where
  "write_summary_report xml_writer summary_kpiset =
     (let succ_s = str_int (successes summary_kpiset);
          throughput = str_int (sample_count summary_kpiset);
          fail_s = str_int (failures summary_kpiset);
          w1 = add_testsuite False [(''failures'', fail_s), (''name'', ''sample_labels''),
                                    (''skip'', ''0''), (''tests'', throughput)] xml_writer;
          w2 = add_testcase False [(''classname'', ''bzt''), (''name'', ''summary_report'')] w1;
          w3 = add_error False [(''message'', ''error statistics:''), (''type'', ''http error'')] w2;
          errors_count = str_int (count_errors summary_kpiset);
          summary_report = summary_report_template succ_s throughput fail_s errors_count;
          w4 = raw_write summary_report w3;
          w5 = write_errors w4 summary_kpiset
      in and_then (close_element w5) close_element)"

text \<open>The body of the loop over the errors of one label in \<open>process_sample_labels\<close>.\<close>

definition write_label_error :: "error_entry \<Rightarrow> writer \<Rightarrow> written" where
  "write_label_error er_dict w =
     (let err_message = rc er_dict;
          err_type = msg er_dict;
          err_desc = ''total errors of this type:'' @ str_int (cnt er_dict);
          w1 = add_error False [(''message'', err_message), (''type'', err_type)] w;
          w2 = raw_write err_desc w1
      in close_element w2)"

fun write_label_errors :: "error_entry list \<Rightarrow> writer \<Rightarrow> written" where
  "write_label_errors [] w = Inr w"
| "write_label_errors (er_dict # ers) w =
     and_then (write_label_error er_dict w) (write_label_errors ers)"

text \<open>The body of the loop over the sorted labels in \<open>process_sample_labels\<close>.\<close>

definition write_label ::
  "(string \<Rightarrow> py_error + parse_result) \<Rightarrow> cumulative \<Rightarrow> string \<Rightarrow> writer \<Rightarrow> written" where
  "write_label parse kpis key w =
     (if key \<noteq> []
      then (case convert_label_name parse key of
              Inl e \<Rightarrow> Inl (e, w)
            | Inr (class_name, resource_name) \<Rightarrow>
                (let w1 = add_testcase False [(''classname'', class_name), (''name'', resource_name)] w
                 in case dict_get kpis key of
                      Inl e \<Rightarrow> Inl (e, w1)
                    | Inr k \<Rightarrow> and_then (write_label_errors (errors k) w1) close_element))
      else Inr w)"

fun write_labels ::
  "(string \<Rightarrow> py_error + parse_result) \<Rightarrow> cumulative \<Rightarrow> string list \<Rightarrow> writer \<Rightarrow> written" where
  "write_labels parse kpis [] w = Inr w"
| "write_labels parse kpis (key # keys) w =
     and_then (write_label parse kpis key w) (write_labels parse kpis keys)"

text \<open>
  The file system: the paths that name an existing directory, and a map from the path of
  each file to the strings written to it. Permissions, devices and links are not
  modelled.
\<close>

record filesystem =
  dirs :: "string set"
  files :: "string \<rightharpoonup> string list"

text \<open>
  \<open>os.path.dirname(p)\<close>: what precedes the last slash, without trailing slashes unless
  it consists of slashes only.
\<close>

definition dirname :: "string \<Rightarrow> string" where
  "dirname p =
     (let head = (case rfind CHR ''/'' p of None \<Rightarrow> [] | Some k \<Rightarrow> take (k + 1) p)
      in if head \<noteq> [] \<and> head \<noteq> replicate (length head) CHR ''/''
         then rev (dropWhile (\<lambda>c. c = CHR ''/'') (rev head))
         else head)"

text \<open>
  The directory a path lies in exists: a path without a directory part lies in the
  current directory.
\<close>

definition dir_exists :: "filesystem \<Rightarrow> string \<Rightarrow> bool" where
  "dir_exists fs d = (d = [] \<or> d \<in> dirs fs)"

text \<open>
  The interpreter. NamedTemporaryFile opens the file in its default binary mode: under
  Python 2 a \<open>str\<close> is a byte string and the file accepts every write of the writer;
  under Python 3 the file refuses a \<open>str\<close>, and the first write, that of
  \<open>write_header\<close> in \<open>JUnitXMLWriter.__init__\<close>, raises TypeError.
\<close>

datatype python = Python2 | Python3

text \<open>
  \<open>process_sample_labels()\<close>. \<open>tmp_name\<close> is the path that NamedTemporaryFile chooses in
  the artifacts directory; creating the file raises when that directory is missing. The
  file exists, empty, from its creation, and holds what was written so far when an
  exception leaves the \<open>with\<close> block.
\<close>

definition process_sample_labels ::
  "(string \<Rightarrow> py_error + parse_result) \<Rightarrow> python \<Rightarrow> string \<Rightarrow> cumulative \<Rightarrow> filesystem
     \<Rightarrow> (py_error + string) \<times> filesystem" where
  "process_sample_labels parse py tmp_name kpis fs =
     (if \<not> dir_exists fs (dirname tmp_name) then (Inl (OSError tmp_name), fs)
      else
        case dict_get kpis [] of
          Inl e \<Rightarrow> (Inl e, fs\<lparr>files := (files fs)(tmp_name \<mapsto> [])\<rparr>)
        | Inr summary_kpiset \<Rightarrow>
            (case py of
               Python3 \<Rightarrow>
                 (Inl (TypeError ''a bytes-like object is required, not str''),
                  fs\<lparr>files := (files fs)(tmp_name \<mapsto> [])\<rparr>)
             | Python2 \<Rightarrow>
                 (case and_then (and_then (write_summary_report (JUnitXMLWriter []) summary_kpiset)
                                   (write_labels parse kpis (sort (dict_keys kpis))))
                         close_element of
                    Inl (e, w) \<Rightarrow> (Inl e, fs\<lparr>files := (files fs)(tmp_name \<mapsto> fds w)\<rparr>)
                  | Inr w \<Rightarrow> (Inr tmp_name, fs\<lparr>files := (files fs)(tmp_name \<mapsto> fds w)\<rparr>))))"

text \<open>
  \<open>save_report(tmp_name, orig_name)\<close>: \<open>os.rename\<close>, which raises when the source file
  is missing, when the directory of the destination is missing, or when the destination
  is a directory, and otherwise replaces the destination.
\<close>

definition save_report :: "string \<Rightarrow> string \<Rightarrow> filesystem \<Rightarrow> py_error + filesystem" where
  "save_report tmp_name orig_name fs =
     (case files fs tmp_name of
        None \<Rightarrow> Inl (OSError tmp_name)
      | Some content \<Rightarrow>
          if \<not> dir_exists fs (dirname orig_name) \<or> orig_name \<in> dirs fs
          then Inl (OSError orig_name)
          else Inr (fs\<lparr>files := ((files fs)(tmp_name := None))(orig_name \<mapsto> content)\<rparr>))"

section \<open>JUnitXMLReporter: the pass/fail report\<close>

text \<open>
  The \<open>config\<close> dictionary of a fail criterion; \<open>label\<close> and \<open>timeframe\<close> may be None.
\<close>

record config =
  subject :: string
  label :: "string option"
  condition :: string
  threshold :: string
  timeframe :: "string option"

record fail_criterion =
  config :: config
  is_triggered :: bool
  fail :: bool

text \<open>The members of \<open>engine.reporters\<close>.\<close>

datatype reporter =
    is_PassFailStatus: PassFailStatus (criterias: "fail_criterion list")
  | OtherReporter

text \<open>An etree element: tag, attributes and children.\<close>

datatype element = Element (tag: string) (attrib: "(string \<times> string) list") (children: "element list")

definition SubElement :: "element \<Rightarrow> element \<Rightarrow> element" where
  "SubElement parent child = Element (tag parent) (attrib parent) (children parent @ [child])"

text \<open>Truth value of an optional string: None and the empty string are false.\<close>

definition truthy :: "string option \<Rightarrow> bool" where
  "truthy v = (case v of None \<Rightarrow> False | Some s \<Rightarrow> s \<noteq> [])"

text \<open>\<open>str(v)\<close> of an optional string.\<close>

definition str_opt :: "string option \<Rightarrow> string" where
  "str_opt v = (case v of None \<Rightarrow> ''None'' | Some s \<Rightarrow> s)"

text \<open>The class name \<open>tpl % data\<close> of one criterion.\<close>

definition criterion_classname :: "config \<Rightarrow> string" where
  "criterion_classname c =
     (let base = (if truthy (label c)
                  then subject c @ '' of '' @ str_opt (label c) @ condition c @ threshold c
                  else subject c @ condition c @ threshold c)
      in if truthy (timeframe c) then base @ '' for '' @ str_opt (timeframe c) else base)"

text \<open>The body of the loop over the criteria: one testcase, with an error child when
  the criterion is triggered and set to fail.\<close>

definition add_criterion :: "fail_criterion \<Rightarrow> element \<Rightarrow> element" where
  "add_criterion fc_obj root_xml_element =
     (let fc_xml_element =
            Element ''testcase'' [(''classname'', criterion_classname (config fc_obj)), (''name'', [])] []
      in SubElement root_xml_element
           (if is_triggered fc_obj \<and> fail fc_obj
            then SubElement fc_xml_element
                   (Element ''error'' [(''type'', ''pass/fail criteria triggered''), (''message'', [])] [])
            else fc_xml_element))"

text \<open>\<open>__process_pass_fail()\<close>, with \<open>engine.reporters\<close> as the parameter.\<close>

definition process_pass_fail :: "reporter list \<Rightarrow> element" where
  "process_pass_fail reporters =
     (let pass_fail_objects = filter is_PassFailStatus reporters;
          fail_criterias = concat (map criterias pass_fail_objects);
          total_failed = str_nat (length (filter (\<lambda>x. is_triggered x \<and> fail x) fail_criterias));
          tests_count = str_nat (length fail_criterias);
          root_xml_element =
            Element ''testsuite'' [(''name'', ''taurus_junitxml_pass_fail''), (''tests'', tests_count),
                                   (''failures'', total_failed), (''skip'', ''0'')] []
      in fold add_criterion fail_criterias root_xml_element)"

section \<open>JUnitXMLReporter.post_process\<close>

text \<open>
  The reporter: the \<open>data-source\<close> parameter (None when absent), the report path set by
  \<open>prepare\<close>, the last data point (None until one arrives; a DataPoint is a non-empty
  dictionary, hence true) given by its cumulative part, and the reporters of the engine.
\<close>

record junit_reporter =
  data_source :: "string option"
  report_file_path :: string
  last_second :: "cumulative option"
  engine_reporters :: "reporter list"

text \<open>
  \<open>post_process()\<close>. In the pass-fail branch the tree is built and then
  \<open>self.__save_report\<close> is looked up; inside the class the name stands for
  \<open>_JUnitXMLReporter__save_report\<close>, and the class defines no such attribute (the method
  of that name is commented out), so the lookup raises AttributeError.
\<close>

definition post_process ::
  "(string \<Rightarrow> py_error + parse_result) \<Rightarrow> python \<Rightarrow> string \<Rightarrow> junit_reporter \<Rightarrow> filesystem
     \<Rightarrow> (py_error + unit) \<times> filesystem" where
  "post_process parse py tmp_name self fs =
     (let test_data_source = (case data_source self of None \<Rightarrow> ''sample-labels'' | Some v \<Rightarrow> v)
      in case last_second self of
           None \<Rightarrow> (Inr (), fs)
         | Some kpis \<Rightarrow>
             if test_data_source = ''sample-labels''
             then (case process_sample_labels parse py tmp_name kpis fs of
                     (Inl e, fs1) \<Rightarrow> (Inl e, fs1)
                   | (Inr tmp_file_name, fs1) \<Rightarrow>
                       (case save_report tmp_file_name (report_file_path self) fs1 of
                          Inl e \<Rightarrow> (Inl e, fs1)
                        | Inr fs2 \<Rightarrow> (Inr (), fs2)))
             else if test_data_source = ''pass-fail''
             then (let root_xml_element = process_pass_fail (engine_reporters self)
                   in (Inl (AttributeError ''_JUnitXMLReporter__save_report''), fs))
             else (Inr (), fs))"

section \<open>Sequences of writer calls\<close>

text \<open>
  The two calls of the open/close discipline: \<open>add_element(name, text, close=False,
  **kwargs)\<close>, which leaves the element open, and \<open>close_element()\<close>.
\<close>

datatype call = Open string "(string \<times> string) list" string | CloseTop

fun run_call :: "call \<Rightarrow> writer \<Rightarrow> written" where
  "run_call (Open element_name kwargs text) w = Inr (add_element element_name text False kwargs w)"
| "run_call CloseTop w = close_element w"

fun run_calls :: "call list \<Rightarrow> writer \<Rightarrow> written" where
  "run_calls [] w = Inr w"
| "run_calls (c # cs) w = and_then (run_call c w) (run_calls cs)"

text \<open>
  A sequence is balanced from depth \<open>d\<close> when no prefix closes more than \<open>d\<close> elements
  beyond those it opens and the whole sequence closes exactly \<open>d\<close> more than it opens.
\<close>

fun balanced_from :: "nat \<Rightarrow> call list \<Rightarrow> bool" where
  "balanced_from d [] = (d = 0)"
| "balanced_from d (Open element_name kwargs text # cs) = balanced_from (Suc d) cs"
| "balanced_from d (CloseTop # cs) = (0 < d \<and> balanced_from (d - 1) cs)"

definition balanced :: "call list \<Rightarrow> bool" where
  "balanced cs = balanced_from 0 cs"

text \<open>The names of the elements a sequence opens, in order.\<close>

fun opened_names :: "call list \<Rightarrow> string list" where
  "opened_names [] = []"
| "opened_names (Open element_name kwargs text # cs) = element_name # opened_names cs"
| "opened_names (CloseTop # cs) = opened_names cs"

text \<open>
  The strings that the \<open>close_element\<close> calls of a sequence write, in order: each call's
  addition to what the file object has received.
\<close>

fun emitted_closings :: "call list \<Rightarrow> writer \<Rightarrow> string list" where
  "emitted_closings [] w = []"
| "emitted_closings (Open element_name kwargs text # cs) w =
     emitted_closings cs (add_element element_name text False kwargs w)"
| "emitted_closings (CloseTop # cs) w =
     (case close_element w of
        Inl e \<Rightarrow> []
      | Inr w' \<Rightarrow> drop (length (fds w)) (fds w') @ emitted_closings cs w')"

text \<open>What \<open>add_element\<close> writes before the close tag.\<close>

definition opening_writes :: "string \<Rightarrow> (string \<times> string) list \<Rightarrow> string \<Rightarrow> string list" where
  "opening_writes element_name kwargs text =
     [''<'' @ element_name]
     @ map (\<lambda>kv. '' '' @ fst kv @ ''='' @ sq @ snd kv @ sq) kwargs
     @ [''>'' @ nl]
     @ (if text \<noteq> [] then [text, nl] else [])"

text \<open>
  A document: an element with its name, attributes, text and child elements. Its calls
  open the element, write the children and close it; its rendering is what a well-nested
  document holds: the opening, the children's renderings, then the element's own close
  tag.
\<close>

datatype node = Node string "(string \<times> string) list" string "node list"

fun calls_of :: "node \<Rightarrow> call list" where
  "calls_of (Node element_name kwargs text cs) =
     Open element_name kwargs text # concat (map calls_of cs) @ [CloseTop]"

fun rendering :: "node \<Rightarrow> string list" where
  "rendering (Node element_name kwargs text cs) =
     opening_writes element_name kwargs text @ concat (map rendering cs)
     @ [closing_tag element_name]"

section \<open>Closing an element on an empty stack\<close>

text \<open>
  C3 (as stated, refuted): on the freshly created writer the stack of pending close tags
  is empty, and \<open>close_element\<close> returns normally with the writer unchanged; it does
  not fail.
\<close>

theorem close_element_empty_stack_returns:
  "endings (JUnitXMLWriter []) = []
   \<and> close_element (JUnitXMLWriter []) = Inr (JUnitXMLWriter [])"
  by (simp add: JUnitXMLWriter_def write_header_def fds_write_def close_element_def)

text \<open>
  C3 (amended): for every writer whose stack of pending close tags is empty,
  \<open>close_element\<close> is a silent no-op: it returns normally, writes nothing and leaves the
  stack empty.
\<close>

theorem close_element_empty_noop:
  "endings w = [] \<Longrightarrow> close_element w = Inr w"
  by (simp add: close_element_def)

theorem close_element_empty_noop_witness:
  "endings \<lparr>fds = [''<a>''], endings = []\<rparr> = []
   \<and> close_element \<lparr>fds = [''<a>''], endings = []\<rparr> = Inr \<lparr>fds = [''<a>''], endings = []\<rparr>"
  using close_element_empty_noop [of "\<lparr>fds = [''<a>''], endings = []\<rparr>"] by simp

section \<open>Label normalization: properties\<close>

lemma replace_char: "replace [a] [b] s = map (\<lambda>c. if c = a then b else c) s"
  by (induction s) auto

lemma replace_dot: "replace ''.'' ''_'' s = dots_to_underscores s"
  by (simp add: replace_char dots_to_underscores_def)

lemma count_dots_to_underscores: "count_list (dots_to_underscores s) CHR ''.'' = 0"
  by (induction s) (auto simp: dots_to_underscores_def)

lemma convert_label_name_scheme:
  assumes "parse l = Inr u" and "scheme u \<noteq> []"
  shows "convert_label_name parse l =
           Inr (scheme u @ ''.'' @ dots_to_underscores (netloc u),
                dots_to_underscores (path u) @ ''.'' @ dots_to_underscores (params u) @ ''.''
                @ dots_to_underscores (query u) @ ''.'' @ dots_to_underscores (fragment u))"
  using assms by (simp add: convert_label_name_def replace_dot)

lemma convert_label_name_plain:
  assumes "parse l = Inr u" and "scheme u = []"
  shows "convert_label_name parse l = Inr (l, l)"
  using assms by (simp add: convert_label_name_def)

lemma urlparse_example:
  "urlparse ''http://a.b.com/p/q?x=1#f'' =
     Inr \<lparr>scheme = ''http'', netloc = ''a.b.com'', path = ''/p/q'', params = [],
          query = ''x=1'', fragment = ''f''\<rparr>"
  by (simp add: urlparse_def urlsplit_def split_scheme_def find_from_def splitnetloc_def
      split_once_def uses_params_def)

lemma urlparse_host_only:
  "urlparse ''http://host'' =
     Inr \<lparr>scheme = ''http'', netloc = ''host'', path = [], params = [],
          query = [], fragment = []\<rparr>"
  by (simp add: urlparse_def urlsplit_def split_scheme_def find_from_def splitnetloc_def
      split_once_def uses_params_def)

lemma urlparse_plain:
  "urlparse ''Home page'' =
     Inr \<lparr>scheme = [], netloc = [], path = ''Home page'', params = [],
          query = [], fragment = []\<rparr>"
  by (simp add: urlparse_def urlsplit_def split_scheme_def find_from_def splitnetloc_def
      split_once_def uses_params_def)

lemma urlparse_port:
  "urlparse ''http://localhost:8080/index.html'' =
     Inr \<lparr>scheme = ''http'', netloc = ''localhost:8080'', path = ''/index.html'', params = [],
          query = [], fragment = []\<rparr>"
  by (simp add: urlparse_def urlsplit_def split_scheme_def find_from_def splitnetloc_def
      split_once_def uses_params_def)

lemma urlparse_userinfo:
  "urlparse ''http://user:pw@a.b.com:8080/p.x'' =
     Inr \<lparr>scheme = ''http'', netloc = ''user:pw@a.b.com:8080'', path = ''/p.x'', params = [],
          query = [], fragment = []\<rparr>"
  by (simp add: urlparse_def urlsplit_def split_scheme_def find_from_def splitnetloc_def
      split_once_def uses_params_def)

text \<open>
  C4 (as stated, refuted): the class name is built from \<open>netloc\<close>, which carries the
  userinfo and the port besides the host. The label \<open>http://localhost:8080/index.html\<close>
  gets the class name \<open>http.localhost:8080\<close>, where the scheme, a dot and the host with
  its dots replaced give \<open>http.localhost\<close>; the label
  \<open>http://user:pw@a.b.com:8080/p.x\<close> gets \<open>http.user:pw@a_b_com:8080\<close>, not
  \<open>http.a_b_com\<close>.
\<close>

theorem convert_label_name_host_counterexample:
  "convert_label_name urlparse ''http://localhost:8080/index.html''
     = Inr (''http.localhost:8080'', ''/index_html...'')
   \<and> spec_class_name \<lparr>scheme = ''http'', netloc = ''localhost:8080'', path = ''/index.html'',
                        params = [], query = [], fragment = []\<rparr>
       = ''http.localhost''
   \<and> convert_label_name urlparse ''http://user:pw@a.b.com:8080/p.x''
       = Inr (''http.user:pw@a_b_com:8080'', ''/p_x...'')
   \<and> spec_class_name \<lparr>scheme = ''http'', netloc = ''user:pw@a.b.com:8080'', path = ''/p.x'',
                        params = [], query = [], fragment = []\<rparr>
       = ''http.a_b_com''"
  by (simp add: convert_label_name_def urlparse_port urlparse_userinfo replace_dot
      dots_to_underscores_def spec_class_name_def spec_host_def)

text \<open>
  C4 (amended): label normalization is a function of the label and the parser's result
  alone. When the label parses with a non-empty scheme, the class name is the scheme, a
  dot, and the \<open>netloc\<close> of the URL (its whole authority: userinfo, host and port) with
  every dot turned into an underscore, which is the host with its dots replaced whenever
  the authority consists of the host alone; the resource name is path, params, query and
  fragment, each with its dots turned into underscores, joined with dots. When the scheme
  is empty, both names are the label itself. The label \<open>http://a.b.com/p/q?x=1#f\<close> gets
  the class name \<open>http.a_b_com\<close>.
\<close>

theorem convert_label_name_spec:
  "(parse l = Inr u \<and> scheme u \<noteq> [] \<longrightarrow>
      convert_label_name parse l =
        Inr (scheme u @ ''.'' @ dots_to_underscores (netloc u),
             dots_to_underscores (path u) @ ''.'' @ dots_to_underscores (params u) @ ''.''
             @ dots_to_underscores (query u) @ ''.'' @ dots_to_underscores (fragment u)))
   \<and> (parse l = Inr u \<and> scheme u \<noteq> [] \<and> spec_host (netloc u) = netloc u \<longrightarrow>
        map_sum id fst (convert_label_name parse l) = Inr (spec_class_name u))
   \<and> (parse l = Inr u \<and> scheme u = [] \<longrightarrow> convert_label_name parse l = Inr (l, l))
   \<and> map_sum id fst (convert_label_name urlparse ''http://a.b.com/p/q?x=1#f'')
       = Inr ''http.a_b_com''"
proof (intro conjI impI)
  assume "parse l = Inr u \<and> scheme u \<noteq> []"
  then show "convert_label_name parse l =
        Inr (scheme u @ ''.'' @ dots_to_underscores (netloc u),
             dots_to_underscores (path u) @ ''.'' @ dots_to_underscores (params u) @ ''.''
             @ dots_to_underscores (query u) @ ''.'' @ dots_to_underscores (fragment u))"
    by (simp add: convert_label_name_scheme)
next
  assume "parse l = Inr u \<and> scheme u \<noteq> [] \<and> spec_host (netloc u) = netloc u"
  then show "map_sum id fst (convert_label_name parse l) = Inr (spec_class_name u)"
    by (simp add: convert_label_name_scheme spec_class_name_def)
next
  assume "parse l = Inr u \<and> scheme u = []"
  then show "convert_label_name parse l = Inr (l, l)"
    by (simp add: convert_label_name_plain)
next
  show "map_sum id fst (convert_label_name urlparse ''http://a.b.com/p/q?x=1#f'')
       = Inr ''http.a_b_com''"
    using convert_label_name_scheme [of urlparse "''http://a.b.com/p/q?x=1#f''", OF urlparse_example]
    by (simp add: dots_to_underscores_def)
qed

theorem convert_label_name_spec_witness:
  "urlparse ''http://a.b.com/p/q?x=1#f'' =
     Inr \<lparr>scheme = ''http'', netloc = ''a.b.com'', path = ''/p/q'', params = [],
          query = ''x=1'', fragment = ''f''\<rparr>
   \<and> spec_host ''a.b.com'' = ''a.b.com''
   \<and> convert_label_name urlparse ''http://a.b.com/p/q?x=1#f''
       = Inr (''http.a_b_com'', ''/p/q..x=1.f'')
   \<and> map_sum id fst (convert_label_name urlparse ''http://a.b.com/p/q?x=1#f'')
       = Inr (spec_class_name \<lparr>scheme = ''http'', netloc = ''a.b.com'', path = ''/p/q'',
                                 params = [], query = ''x=1'', fragment = ''f''\<rparr>)
   \<and> urlparse ''Home page'' =
     Inr \<lparr>scheme = [], netloc = [], path = ''Home page'', params = [],
          query = [], fragment = []\<rparr>
   \<and> convert_label_name urlparse ''Home page'' = Inr (''Home page'', ''Home page'')"
proof -
  let ?u = "\<lparr>scheme = ''http'', netloc = ''a.b.com'', path = ''/p/q'', params = [],
          query = ''x=1'', fragment = ''f''\<rparr>"
  let ?v = "\<lparr>scheme = [], netloc = [], path = ''Home page'', params = [],
          query = [], fragment = []\<rparr>"
  have h: "spec_host ''a.b.com'' = ''a.b.com''" by (simp add: spec_host_def)
  note a = convert_label_name_spec [of urlparse "''http://a.b.com/p/q?x=1#f''" ?u]
  note b = convert_label_name_spec [of urlparse "''Home page''" ?v]
  from a urlparse_example
  have 1: "convert_label_name urlparse ''http://a.b.com/p/q?x=1#f''
             = Inr (''http.a_b_com'', ''/p/q..x=1.f'')"
    by (simp add: dots_to_underscores_def)
  from a urlparse_example h
  have 2: "map_sum id fst (convert_label_name urlparse ''http://a.b.com/p/q?x=1#f'')
             = Inr (spec_class_name ?u)"
    by (simp add: spec_class_name_def)
  from b urlparse_plain
  have 3: "convert_label_name urlparse ''Home page'' = Inr (''Home page'', ''Home page'')"
    by simp
  from urlparse_example h 1 2 urlparse_plain 3 show ?thesis by blast
qed

text \<open>
  C9: for a label that parses with an empty scheme, normalization yields the pair
  (label, label), and normalizing either component of that pair yields the same pair
  again.
\<close>

theorem convert_label_name_idempotent:
  assumes "parse x = Inr u" and "scheme u = []"
  shows "\<exists>c r. convert_label_name parse x = Inr (c, r) \<and> c = x \<and> r = x
           \<and> convert_label_name parse c = convert_label_name parse x
           \<and> convert_label_name parse r = convert_label_name parse x"
  using assms by (simp add: convert_label_name_plain)

theorem convert_label_name_idempotent_witness:
  "urlparse ''Home page'' =
     Inr \<lparr>scheme = [], netloc = [], path = ''Home page'', params = [],
          query = [], fragment = []\<rparr>
   \<and> (\<exists>c r. convert_label_name urlparse ''Home page'' = Inr (c, r)
         \<and> c = ''Home page'' \<and> r = ''Home page''
         \<and> convert_label_name urlparse c = convert_label_name urlparse ''Home page''
         \<and> convert_label_name urlparse r = convert_label_name urlparse ''Home page'')"
  using convert_label_name_idempotent [of urlparse "''Home page''", OF urlparse_plain] urlparse_plain
  by simp

text \<open>
  C10: for a label that parses with a non-empty scheme, the resource name always joins
  all four of path, params, query and fragment with dots, empty or not: it has exactly
  three dots, an empty path gives a leading dot, an empty fragment a trailing dot, an
  empty params or query two consecutive dots, and four empty components give the
  resource name of three dots, as for \<open>http://host\<close>.
\<close>

theorem convert_label_name_keeps_empty_components:
  assumes "parse l = Inr u" and "scheme u \<noteq> []"
  shows "\<exists>c r. convert_label_name parse l = Inr (c, r)
           \<and> r = dots_to_underscores (path u) @ ''.'' @ dots_to_underscores (params u) @ ''.''
                 @ dots_to_underscores (query u) @ ''.'' @ dots_to_underscores (fragment u)
           \<and> count_list r CHR ''.'' = 3
           \<and> (path u = [] \<longrightarrow> take 1 r = ''.'')
           \<and> (fragment u = [] \<longrightarrow> last r = CHR ''.'')
           \<and> (params u = [] \<longrightarrow> (\<exists>a b. r = a @ ''..'' @ b))
           \<and> (query u = [] \<longrightarrow> (\<exists>a b. r = a @ ''..'' @ b))
           \<and> (path u = [] \<and> params u = [] \<and> query u = [] \<and> fragment u = [] \<longrightarrow> r = ''...'')"
proof -
  let ?d = dots_to_underscores
  let ?r = "?d (path u) @ ''.'' @ ?d (params u) @ ''.'' @ ?d (query u) @ ''.'' @ ?d (fragment u)"
  have res: "convert_label_name parse l = Inr (scheme u @ ''.'' @ ?d (netloc u), ?r)"
    using assms by (rule convert_label_name_scheme)
  have cnt: "count_list ?r CHR ''.'' = 3"
    by (simp add: count_dots_to_underscores)
  have p: "path u = [] \<longrightarrow> take 1 ?r = ''.''"
    by (simp add: dots_to_underscores_def)
  have f: "fragment u = [] \<longrightarrow> last ?r = CHR ''.''"
    by (simp add: dots_to_underscores_def)
  have pa: "params u = [] \<longrightarrow> (\<exists>a b. ?r = a @ ''..'' @ b)"
  proof
    assume "params u = []"
    then have "?r = ?d (path u) @ ''..'' @ (?d (query u) @ ''.'' @ ?d (fragment u))"
      by (simp add: dots_to_underscores_def)
    then show "\<exists>a b. ?r = a @ ''..'' @ b" by blast
  qed
  have q: "query u = [] \<longrightarrow> (\<exists>a b. ?r = a @ ''..'' @ b)"
  proof
    assume "query u = []"
    then have "?r = (?d (path u) @ ''.'' @ ?d (params u)) @ ''..'' @ ?d (fragment u)"
      by (simp add: dots_to_underscores_def)
    then show "\<exists>a b. ?r = a @ ''..'' @ b" by blast
  qed
  have e: "path u = [] \<and> params u = [] \<and> query u = [] \<and> fragment u = [] \<longrightarrow> ?r = ''...''"
    by (simp add: dots_to_underscores_def)
  from res cnt p f pa q e show ?thesis by blast
qed

theorem convert_label_name_keeps_empty_components_witness:
  "urlparse ''http://host'' =
     Inr \<lparr>scheme = ''http'', netloc = ''host'', path = [], params = [],
          query = [], fragment = []\<rparr>
   \<and> convert_label_name urlparse ''http://host'' = Inr (''http.host'', ''...'')"
proof -
  let ?u = "\<lparr>scheme = ''http'', netloc = ''host'', path = [], params = [],
          query = [], fragment = []\<rparr>"
  have s: "scheme ?u \<noteq> []" by simp
  from convert_label_name_keeps_empty_components [of urlparse "''http://host''", OF urlparse_host_only s]
  obtain c r where cr: "convert_label_name urlparse ''http://host'' = Inr (c, r)"
    and r: "r = ''...''" by auto
  have "c = ''http.host''"
    using cr convert_label_name_scheme [of urlparse "''http://host''", OF urlparse_host_only s]
    by (simp add: dots_to_underscores_def)
  with cr r urlparse_host_only show ?thesis by simp
qed

section \<open>The failure percentage\<close>

text \<open>
  C2 (the code departs from it): for every summary record whose sample count is zero,
  \<open>__report_samples_count\<close> raises: ZeroDivisionError from the division by
  \<open>float(0)\<close>, or OverflowError when the dividend is beyond the range of a double.
  There is no guard that returns 0 or a sentinel.
\<close>

theorem report_samples_count_zero_raises:
  "sample_count k = 0 \<Longrightarrow>
   report_samples_count k lg =
     Inl (if \<bar>100 * failures k\<bar> \<ge> 2 ^ 1024 - 2 ^ 970 then OverflowError else ZeroDivisionError)"
  by (simp add: report_samples_count_def and_then_def py_float_def)

theorem report_samples_count_zero_raises_witness:
  "sample_count \<lparr>sample_count = 0, successes = 0, failures = 0, errors = []\<rparr> = 0
   \<and> report_samples_count \<lparr>sample_count = 0, successes = 0, failures = 0, errors = []\<rparr> []
       = Inl ZeroDivisionError"
  using report_samples_count_zero_raises
    [of "\<lparr>sample_count = 0, successes = 0, failures = 0, errors = []\<rparr>" "[]"]
  by simp

section \<open>post_process\<close>

text \<open>
  In the sample-labels mode the report reaches the final path: when
  \<open>process_sample_labels\<close> returns and the directory of the report path exists,
  \<open>post_process\<close> returns normally and the file at the report path holds what was
  written to the temporary file.
\<close>

lemma process_sample_labels_Inr:
  assumes "process_sample_labels parse py tmp_name kpis fs = (Inr t, fs1)"
  shows "t = tmp_name \<and> dirs fs1 = dirs fs \<and> (\<exists>content. files fs1 tmp_name = Some content)"
  using assms
  by (auto simp: process_sample_labels_def split: sum.splits prod.splits if_splits python.splits)

lemma post_process_sample_labels_publishes:
  assumes "data_source self = None \<or> data_source self = Some ''sample-labels''"
    and "last_second self = Some kpis"
    and "process_sample_labels parse py tmp_name kpis fs = (Inr t, fs1)"
    and "dir_exists fs (dirname (report_file_path self))"
    and "report_file_path self \<notin> dirs fs"
  shows "\<exists>fs2 content. post_process parse py tmp_name self fs = (Inr (), fs2)
           \<and> files fs2 (report_file_path self) = Some content
           \<and> files fs1 tmp_name = Some content"
proof -
  from process_sample_labels_Inr [OF assms(3)] obtain content
    where t: "t = tmp_name" and d: "dirs fs1 = dirs fs"
      and c: "files fs1 tmp_name = Some content" by blast
  from assms(1) have ds: "(case data_source self of None \<Rightarrow> ''sample-labels'' | Some v \<Rightarrow> v) = ''sample-labels''"
    by auto
  from assms(4) d have de: "dir_exists fs1 (dirname (report_file_path self))"
    by (simp add: dir_exists_def)
  from assms(5) d have nd: "report_file_path self \<notin> dirs fs1" by simp
  show ?thesis
    using assms(2,3) t c ds de nd by (simp add: post_process_def save_report_def)
qed

text \<open>
  The end-to-end example of the spec in the sample-labels mode under Python 2: the report
  file holds the whole document.
\<close>

lemma post_process_sample_labels_example:
  "fst (post_process urlparse Python2 ''tmp0.xml''
     \<lparr>data_source = None, report_file_path = ''xunit.xml'',
      last_second = Some
        [([], \<lparr>sample_count = 10, successes = 8, failures = 2,
               errors = [\<lparr>rc = ''500'', msg = ''Server Error'', cnt = 2, urls = [(''http://x/y'', 2)]\<rparr>]\<rparr>),
         (''http://x/y'', \<lparr>sample_count = 10, successes = 8, failures = 2,
               errors = [\<lparr>rc = ''500'', msg = ''Server Error'', cnt = 2, urls = []\<rparr>]\<rparr>)],
      engine_reporters = []\<rparr>
     \<lparr>dirs = {}, files = Map.empty\<rparr>) = Inr ()
  \<and> map_option concat (files (snd (post_process urlparse Python2 ''tmp0.xml''
     \<lparr>data_source = None, report_file_path = ''xunit.xml'',
      last_second = Some
        [([], \<lparr>sample_count = 10, successes = 8, failures = 2,
               errors = [\<lparr>rc = ''500'', msg = ''Server Error'', cnt = 2, urls = [(''http://x/y'', 2)]\<rparr>]\<rparr>),
         (''http://x/y'', \<lparr>sample_count = 10, successes = 8, failures = 2,
               errors = [\<lparr>rc = ''500'', msg = ''Server Error'', cnt = 2, urls = []\<rparr>]\<rparr>)],
      engine_reporters = []\<rparr>
     \<lparr>dirs = {}, files = Map.empty\<rparr>)) ''xunit.xml'')
   = Some (''<?xml version='' @ sq @ ''1.0'' @ sq @ '' encoding='' @ sq @ ''UTF-8'' @ sq @ ''?>'' @ nl
      @ ''<testsuite failures='' @ sq @ ''2'' @ sq @ '' name='' @ sq @ ''sample_labels'' @ sq
      @ '' skip='' @ sq @ ''0'' @ sq @ '' tests='' @ sq @ ''10'' @ sq @ ''>'' @ nl
      @ ''<testcase classname='' @ sq @ ''bzt'' @ sq @ '' name='' @ sq @ ''summary_report'' @ sq @ ''>'' @ nl
      @ ''<error message='' @ sq @ ''error statistics:'' @ sq @ '' type='' @ sq @ ''http error'' @ sq @ ''>'' @ nl
      @ ''Success: 8, Sample count: 10, Failures: 2, Errors: 2'' @ nl
      @ ''Error code: 500, Message: Server Error, count: 2'' @ nl
      @ ''URL: http://x/y, Error count 2'' @ nl
      @ ''</error>'' @ nl
      @ ''</testcase>'' @ nl
      @ ''<testcase classname='' @ sq @ ''http.x'' @ sq @ '' name='' @ sq @ ''/y...'' @ sq @ ''>'' @ nl
      @ ''<error message='' @ sq @ ''500'' @ sq @ '' type='' @ sq @ ''Server Error'' @ sq @ ''>'' @ nl
      @ ''total errors of this type:2''
      @ ''</error>'' @ nl
      @ ''</testcase>'' @ nl
      @ ''</testsuite>'' @ nl)"
  by code_simp

text \<open>
  Under Python 3 the same input leaves an empty temporary file and no report: the first
  write raises TypeError. A report path in a missing directory makes the move raise.
\<close>

lemma post_process_sample_labels_python3:
  "post_process urlparse Python3 ''tmp0.xml''
     \<lparr>data_source = None, report_file_path = ''xunit.xml'',
      last_second = Some [([], \<lparr>sample_count = 10, successes = 8, failures = 2, errors = []\<rparr>)],
      engine_reporters = []\<rparr>
     \<lparr>dirs = {}, files = Map.empty\<rparr>
   = (Inl (TypeError ''a bytes-like object is required, not str''),
      \<lparr>dirs = {}, files = [''tmp0.xml'' \<mapsto> []]\<rparr>)"
  by (simp add: post_process_def process_sample_labels_def dir_exists_def dirname_def rfind_def
      dict_get_def)

lemma save_report_missing_directory:
  "save_report ''tmp0.xml'' ''reports/xunit.xml'' \<lparr>dirs = {}, files = [''tmp0.xml'' \<mapsto> [''x'']]\<rparr>
   = Inl (OSError ''reports/xunit.xml'')"
  by (simp add: save_report_def dir_exists_def dirname_def rfind_def)

text \<open>
  C1 (the code departs from it): in the pass-fail mode, whenever a data point has arrived,
  \<open>post_process\<close> builds the tree and then raises AttributeError, because
  \<open>self.__save_report\<close> names a method that the class does not define; the file system
  is left as it was, so no report file appears at the final path.
\<close>

theorem post_process_pass_fail_raises:
  assumes "data_source self = Some ''pass-fail''" and "last_second self = Some kpis"
  shows "post_process parse py tmp_name self fs
           = (Inl (AttributeError ''_JUnitXMLReporter__save_report''), fs)"
  using assms by (simp add: post_process_def)

theorem post_process_pass_fail_raises_witness:
  "post_process urlparse Python2 ''tmp0.xml''
     \<lparr>data_source = Some ''pass-fail'', report_file_path = ''xunit.xml'',
      last_second = Some [([], \<lparr>sample_count = 10, successes = 8, failures = 2, errors = []\<rparr>)],
      engine_reporters =
        [PassFailStatus
           [\<lparr>config = \<lparr>subject = ''avg-rt'', label = None, condition = ''>'',
                        threshold = ''100ms'', timeframe = None\<rparr>,
             is_triggered = True, fail = True\<rparr>]]\<rparr>
     \<lparr>dirs = {}, files = Map.empty\<rparr>
   = (Inl (AttributeError ''_JUnitXMLReporter__save_report''), \<lparr>dirs = {}, files = Map.empty\<rparr>)
   \<and> files \<lparr>dirs = {}, files = Map.empty\<rparr> ''xunit.xml'' = None"
  using post_process_pass_fail_raises
    [where self = "\<lparr>data_source = Some ''pass-fail'', report_file_path = ''xunit.xml'',
      last_second = Some [([], \<lparr>sample_count = 10, successes = 8, failures = 2, errors = []\<rparr>)],
      engine_reporters =
        [PassFailStatus
           [\<lparr>config = \<lparr>subject = ''avg-rt'', label = None, condition = ''>'',
                        threshold = ''100ms'', timeframe = None\<rparr>,
             is_triggered = True, fail = True\<rparr>]]\<rparr>"
      and kpis = "[([], \<lparr>sample_count = 10, successes = 8, failures = 2, errors = []\<rparr>)]"
      and parse = urlparse and py = Python2 and tmp_name = "''tmp0.xml''"
      and fs = "\<lparr>dirs = {}, files = Map.empty\<rparr>"]
  by simp

section \<open>The decimal numeral of a count\<close>

lemma digit_char_inj: "a < 10 \<Longrightarrow> b < 10 \<Longrightarrow> digit_char a = digit_char b \<Longrightarrow> a = b"
proof -
  assume a: "a < 10" and b: "b < 10" and eq: "digit_char a = digit_char b"
  from eq have "(of_char (digit_char a) :: nat) = of_char (digit_char b)" by simp
  with a b show "a = b" by (simp add: digit_char_def)
qed

lemma str_nat_nonempty: "str_nat n \<noteq> []"
  by (subst str_nat.simps) simp

lemma str_nat_snoc: "10 \<le> n \<Longrightarrow> str_nat n = str_nat (n div 10) @ [digit_char (n mod 10)]"
  by (subst str_nat.simps) simp

lemma str_nat_digit: "n < 10 \<Longrightarrow> str_nat n = [digit_char n]"
  by (subst str_nat.simps) simp

lemma str_nat_inj: "str_nat n = str_nat m \<Longrightarrow> n = m"
proof (induction n arbitrary: m rule: str_nat.induct)
  case (1 n)
  show ?case
  proof (cases "n < 10")
    case True
    note n = this
    show ?thesis
    proof (cases "m < 10")
      case True
      with n "1.prems" show ?thesis by (simp add: str_nat_digit digit_char_inj)
    next
      case False
      with n "1.prems" show ?thesis
        using str_nat_nonempty [of "m div 10"] by (simp add: str_nat_digit str_nat_snoc)
    qed
  next
    case False
    note n = this
    show ?thesis
    proof (cases "m < 10")
      case True
      with n "1.prems" show ?thesis
        using str_nat_nonempty [of "n div 10"] by (simp add: str_nat_digit str_nat_snoc)
    next
      case False
      with n "1.prems" have eq: "str_nat (n div 10) = str_nat (m div 10)"
        and d: "digit_char (n mod 10) = digit_char (m mod 10)"
        by (simp_all add: str_nat_snoc)
      from "1.IH" [OF n eq] have q: "n div 10 = m div 10" .
      from d have r: "n mod 10 = m mod 10" by (intro digit_char_inj) simp_all
      from q r show ?thesis by (metis div_mult_mod_eq)
    qed
  qed
qed

section \<open>The pass/fail report\<close>

lemma add_criterion_tag_attrib:
  "tag (add_criterion fc e) = tag e \<and> attrib (add_criterion fc e) = attrib e"
  by (simp add: add_criterion_def SubElement_def Let_def)

lemma fold_add_criterion_tag_attrib:
  "tag (fold add_criterion fcs e) = tag e \<and> attrib (fold add_criterion fcs e) = attrib e"
  by (induction fcs arbitrary: e) (simp_all add: add_criterion_tag_attrib)

lemma fold_add_criterion_children:
  "length (children (fold add_criterion fcs e)) = length (children e) + length fcs"
  by (induction fcs arbitrary: e) (simp_all add: add_criterion_def SubElement_def Let_def)

text \<open>
  C8: the root element of the pass/fail report is a \<open>testsuite\<close> whose \<open>tests\<close>
  attribute is the decimal numeral of the number of criteria of all PassFailStatus
  reporters, whose \<open>failures\<close> attribute is the numeral of the number of those criteria
  that are both triggered and set to fail, and whose \<open>skip\<close> attribute is 0; it has one
  child per criterion. Distinct counts have distinct numerals (\<open>str_nat_inj\<close>).
\<close>

theorem process_pass_fail_root_counts:
  "tag (process_pass_fail rs) = ''testsuite''
   \<and> map_of (attrib (process_pass_fail rs)) ''tests''
       = Some (str_nat (length (concat (map criterias (filter is_PassFailStatus rs)))))
   \<and> map_of (attrib (process_pass_fail rs)) ''failures''
       = Some (str_nat (length (filter (\<lambda>x. is_triggered x \<and> fail x)
                                  (concat (map criterias (filter is_PassFailStatus rs))))))
   \<and> map_of (attrib (process_pass_fail rs)) ''skip'' = Some ''0''
   \<and> length (children (process_pass_fail rs))
       = length (concat (map criterias (filter is_PassFailStatus rs)))"
  by (simp add: process_pass_fail_def Let_def fold_add_criterion_tag_attrib
      fold_add_criterion_children)

text \<open>The example of the spec: three criteria, one of them triggered and set to fail.\<close>

lemma process_pass_fail_three_criteria:
  "attrib (process_pass_fail
     [PassFailStatus
        [\<lparr>config = \<lparr>subject = ''avg-rt'', label = Some ''home'', condition = ''>'',
                     threshold = ''100ms'', timeframe = Some ''10s''\<rparr>,
          is_triggered = True, fail = True\<rparr>,
         \<lparr>config = \<lparr>subject = ''avg-rt'', label = None, condition = ''>'',
                     threshold = ''100ms'', timeframe = None\<rparr>,
          is_triggered = True, fail = False\<rparr>],
      OtherReporter,
      PassFailStatus
        [\<lparr>config = \<lparr>subject = ''fail'', label = None, condition = ''>'',
                     threshold = ''5%'', timeframe = None\<rparr>,
          is_triggered = False, fail = True\<rparr>]])
   = [(''name'', ''taurus_junitxml_pass_fail''), (''tests'', ''3''), (''failures'', ''1''),
      (''skip'', ''0'')]"
  by code_simp

section \<open>What the writer's methods write\<close>

lemma fold_write_attr:
  "fold write_attr kwargs w
     = w\<lparr>fds := fds w @ map (\<lambda>kv. '' '' @ fst kv @ ''='' @ sq @ snd kv @ sq) kwargs\<rparr>"
  by (induction kwargs arbitrary: w) (simp_all add: write_attr_def fds_write_def)

lemma add_element_open:
  "add_element element_name text False kwargs w
     = \<lparr>fds = fds w @ opening_writes element_name kwargs text,
        endings = endings w @ [closing_tag element_name]\<rparr>"
  by (simp add: add_element_def fold_write_attr fds_write_def opening_writes_def Let_def)

lemma close_element_push:
  "close_element \<lparr>fds = f, endings = es @ [e]\<rparr> = Inr \<lparr>fds = f @ [e], endings = es\<rparr>"
  by (simp add: close_element_def fds_write_def)

section \<open>The summary report\<close>

lemma count_errors_inner:
  "fold (\<lambda>url_count c. c + snd url_count) us (a::int) = a + sum_list (map snd us)"
  by (induction us arbitrary: a) simp_all

lemma count_errors_outer:
  "fold (\<lambda>error err_counter. fold (\<lambda>url_count c. c + snd url_count) (urls error) err_counter) es (a::int)
     = a + sum_list (map snd (concat (map urls es)))"
  by (induction es arbitrary: a) (simp_all add: count_errors_inner)

lemma count_errors_sum:
  "count_errors k = sum_list (map snd (concat (map urls (errors k))))"
  by (simp add: count_errors_def count_errors_outer)

lemma write_errors_url_endings:
  "endings (fst (fold write_errors_url us st)) = endings (fst st)
   \<and> (\<exists>more. fds (fst (fold write_errors_url us st)) = fds (fst st) @ more)"
proof (induction us arbitrary: st)
  case Nil
  show ?case by simp
next
  case (Cons u us)
  from Cons.IH [of "write_errors_url u st"] show ?case
    by (auto simp: write_errors_url_def raw_write_def fds_write_def Let_def)
qed

lemma write_errors_entries_endings:
  "endings (fst (fold write_errors_entry es st)) = endings (fst st)
   \<and> (\<exists>more. fds (fst (fold write_errors_entry es st)) = fds (fst st) @ more)"
proof (induction es arbitrary: st)
  case Nil
  show ?case by simp
next
  case (Cons e es)
  let ?st1 = "(raw_write (err_template e) (fst st), snd st)"
  from write_errors_url_endings [of "urls e" ?st1]
  have 1: "endings (fst (write_errors_entry e st)) = endings (fst st)"
    and 2: "\<exists>more. fds (fst (write_errors_entry e st)) = fds (fst st) @ more"
    by (auto simp: write_errors_entry_def raw_write_def fds_write_def)
  from Cons.IH [of "write_errors_entry e st"] 1 2 show ?case by auto
qed

lemma write_errors_appends:
  "endings (write_errors w k) = endings w \<and> (\<exists>more. fds (write_errors w k) = fds w @ more)"
  using write_errors_entries_endings [of "errors k" "(w, [])"] by (simp add: write_errors_def)

text \<open>
  C7: \<open>write_summary_report\<close> returns normally, and what it writes begins with the
  openings of the testsuite, of the summary testcase and of its error element, followed at
  once by the line \<open>Success: S, Sample count: N, Failures: F, Errors: E\<close>, where S, N
  and F are the success, sample and failure counts of the record and E is the sum of the
  per-URL counts over the \<open>urls\<close> of all its error entries. E does not depend on the
  \<open>cnt\<close> fields of the entries.
\<close>

theorem write_summary_report_first_line:
  "\<exists>w' rest.
     write_summary_report w k = Inr w'
     \<and> fds w' = fds w
         @ opening_writes ''testsuite''
             [(''failures'', str_int (failures k)), (''name'', ''sample_labels''),
              (''skip'', ''0''), (''tests'', str_int (sample_count k))] []
         @ opening_writes ''testcase'' [(''classname'', ''bzt''), (''name'', ''summary_report'')] []
         @ opening_writes ''error'' [(''message'', ''error statistics:''), (''type'', ''http error'')] []
         @ [''Success: '' @ str_int (successes k) @ '', Sample count: '' @ str_int (sample_count k)
            @ '', Failures: '' @ str_int (failures k) @ '', Errors: ''
            @ str_int (sum_list (map snd (concat (map urls (errors k))))) @ nl]
         @ rest
     \<and> count_errors k = sum_list (map snd (concat (map urls (errors k))))
     \<and> count_errors (k\<lparr>errors := map (cnt_update f) (errors k)\<rparr>) = count_errors k"
proof -
  let ?o1 = "opening_writes ''testsuite''
             [(''failures'', str_int (failures k)), (''name'', ''sample_labels''),
              (''skip'', ''0''), (''tests'', str_int (sample_count k))] []"
  let ?o2 = "opening_writes ''testcase'' [(''classname'', ''bzt''), (''name'', ''summary_report'')] []"
  let ?o3 = "opening_writes ''error'' [(''message'', ''error statistics:''), (''type'', ''http error'')] []"
  let ?line = "''Success: '' @ str_int (successes k) @ '', Sample count: '' @ str_int (sample_count k)
            @ '', Failures: '' @ str_int (failures k) @ '', Errors: ''
            @ str_int (sum_list (map snd (concat (map urls (errors k))))) @ nl"
  let ?w4 = "\<lparr>fds = fds w @ ?o1 @ ?o2 @ ?o3 @ [?line],
              endings = endings w @ [closing_tag ''testsuite'', closing_tag ''testcase'', closing_tag ''error'']\<rparr>"
  let ?w5 = "write_errors ?w4 k"
  from write_errors_appends [of ?w4 k] obtain more
    where e5: "endings ?w5 = endings ?w4" and f5: "fds ?w5 = fds ?w4 @ more" by blast
  have w5: "?w5 = \<lparr>fds = fds ?w4 @ more,
                    endings = (endings w @ [closing_tag ''testsuite'', closing_tag ''testcase'']) @ [closing_tag ''error'']\<rparr>"
    using e5 f5 by (cases ?w5) simp
  have run: "write_summary_report w k = and_then (close_element ?w5) close_element"
    by (simp add: write_summary_report_def Let_def add_testsuite_def add_testcase_def
        add_error_def add_element_open raw_write_def fds_write_def summary_report_template_def
        count_errors_sum)
  have c1: "close_element ?w5
              = Inr \<lparr>fds = (fds ?w4 @ more) @ [closing_tag ''error''],
                     endings = (endings w @ [closing_tag ''testsuite'']) @ [closing_tag ''testcase'']\<rparr>"
    by (subst w5, subst close_element_push) simp
  have res: "write_summary_report w k
              = Inr \<lparr>fds = ((fds ?w4 @ more) @ [closing_tag ''error'']) @ [closing_tag ''testcase''],
                     endings = endings w @ [closing_tag ''testsuite'']\<rparr>"
    unfolding run c1 by (simp add: and_then_def close_element_push del: append_assoc)
  have cnt: "count_errors (k\<lparr>errors := map (cnt_update f) (errors k)\<rparr>) = count_errors k"
    by (simp add: count_errors_sum comp_def)
  show ?thesis
    using res cnt count_errors_sum [of k] by simp
qed

section \<open>The URL lines of the summary\<close>

lemma map_upt_take_snoc:
  "map (\<lambda>j. g (take (Suc j) (xs @ [x]))) [0..<length (xs @ [x])]
     = map (\<lambda>j. g (take (Suc j) xs)) [0..<length xs] @ [g (xs @ [x])]"
  by (simp cong: map_cong)

lemma write_errors_url_fold:
  "fold write_errors_url us (w, acc)
     = (w\<lparr>fds := fds w @ map (\<lambda>j. acc @ concat (map url_err_template (take (Suc j) us)))
                            [0..<length us]\<rparr>,
        acc @ concat (map url_err_template us))"
proof (induction us rule: rev_induct)
  case Nil
  show ?case by simp
next
  case (snoc u us)
  have "fold write_errors_url (us @ [u]) (w, acc)
          = write_errors_url u (fold write_errors_url us (w, acc))"
    by simp
  also have "\<dots> = write_errors_url u
      (w\<lparr>fds := fds w @ map (\<lambda>j. acc @ concat (map url_err_template (take (Suc j) us)))
                            [0..<length us]\<rparr>,
        acc @ concat (map url_err_template us))"
    by (simp only: snoc.IH)
  also have "\<dots> = (w\<lparr>fds := fds w @ (map (\<lambda>j. acc @ concat (map url_err_template (take (Suc j) us)))
                            [0..<length us] @ [acc @ concat (map url_err_template (us @ [u]))])\<rparr>,
        acc @ concat (map url_err_template (us @ [u])))"
    by (simp add: write_errors_url_def raw_write_def fds_write_def Let_def)
  finally show ?case
    by (simp only: map_upt_take_snoc [where g = "\<lambda>l. acc @ concat (map url_err_template l)"])
qed

lemma map_upt_nth_snoc:
  "map (\<lambda>i. g (take i (xs @ [x])) ((xs @ [x]) ! i)) [0..<length (xs @ [x])]
     = map (\<lambda>i. g (take i xs) (xs ! i)) [0..<length xs] @ [g xs x]"
  by (simp add: nth_append cong: map_cong)

lemma write_errors_entry_fold:
  "fold write_errors_entry es (w, acc)
     = (w\<lparr>fds := fds w @ concat (map (\<lambda>i. err_template (es ! i)
              # map (\<lambda>j. acc @ concat (map url_err_template
                                 (concat (map urls (take i es)) @ take (Suc j) (urls (es ! i)))))
                  [0..<length (urls (es ! i))]) [0..<length es])\<rparr>,
        acc @ concat (map url_err_template (concat (map urls es))))"
proof (induction es rule: rev_induct)
  case Nil
  show ?case by simp
next
  case (snoc e es)
  let ?g = "\<lambda>pre e. err_template e
              # map (\<lambda>j. acc @ concat (map url_err_template
                                 (concat (map urls pre) @ take (Suc j) (urls e))))
                  [0..<length (urls e)]"
  have "fold write_errors_entry (es @ [e]) (w, acc)
          = write_errors_entry e (fold write_errors_entry es (w, acc))"
    by simp
  also have "\<dots> = write_errors_entry e
      (w\<lparr>fds := fds w @ concat (map (\<lambda>i. ?g (take i es) (es ! i)) [0..<length es])\<rparr>,
        acc @ concat (map url_err_template (concat (map urls es))))"
    by (simp only: snoc.IH)
  also have "\<dots> = (w\<lparr>fds := fds w @ concat (map (\<lambda>i. ?g (take i es) (es ! i)) [0..<length es] @ [?g es e])\<rparr>,
        acc @ concat (map url_err_template (concat (map urls (es @ [e])))))"
    by (simp add: write_errors_entry_def write_errors_url_fold raw_write_def fds_write_def)
  finally show ?case
    by (simp only: map_upt_nth_snoc [where g = ?g])
qed

text \<open>Two entries with two and one URLs: the third URL write repeats the first two lines.\<close>

lemma write_errors_two_entries:
  "fds (write_errors \<lparr>fds = [], endings = []\<rparr>
          \<lparr>sample_count = 10, successes = 7, failures = 3,
           errors = [\<lparr>rc = ''500'', msg = ''E'', cnt = 2, urls = [(''u1'', 1), (''u2'', 2)]\<rparr>,
                     \<lparr>rc = ''404'', msg = ''N'', cnt = 3, urls = [(''u3'', 3)]\<rparr>]\<rparr>)
   = [''Error code: 500, Message: E, count: 2'' @ nl,
      ''URL: u1, Error count 1'' @ nl,
      ''URL: u1, Error count 1'' @ nl @ ''URL: u2, Error count 2'' @ nl,
      ''Error code: 404, Message: N, count: 3'' @ nl,
      ''URL: u1, Error count 1'' @ nl @ ''URL: u2, Error count 2'' @ nl
        @ ''URL: u3, Error count 3'' @ nl]"
  by code_simp

text \<open>
  C6: what \<open>write_errors\<close> writes, entry by entry: the error line of the entry, and then,
  for the URL number \<open>j\<close> of the entry number \<open>i\<close>, one string that holds the URL
  lines of all earlier entries followed by the first \<open>j + 1\<close> URL lines of this entry.
  The accumulated string is never reset, and each URL iteration writes all of it again,
  so every earlier URL write is a prefix of every later one.
\<close>

theorem write_errors_accumulates:
  "fds (write_errors w k)
     = fds w
       @ concat (map (\<lambda>i. err_template (errors k ! i)
                          # map (\<lambda>j. concat (map url_err_template
                                                (concat (map urls (take i (errors k)))
                                                 @ take (Suc j) (urls (errors k ! i)))))
                              [0..<length (urls (errors k ! i))])
                   [0..<length (errors k)])"
  by (simp add: write_errors_def write_errors_entry_fold)

section \<open>Balanced sequences of calls\<close>

lemma run_calls_append: "run_calls (a @ b) w = and_then (run_calls a w) (run_calls b)"
  by (induction a arbitrary: w) (simp_all add: and_then_def split: sum.splits)

lemma run_calls_forest:
  assumes "\<And>t w. t \<in> set ts \<Longrightarrow>
             run_calls (calls_of t) w = Inr \<lparr>fds = fds w @ rendering t, endings = endings w\<rparr>"
  shows "run_calls (concat (map calls_of ts)) w
           = Inr \<lparr>fds = fds w @ concat (map rendering ts), endings = endings w\<rparr>"
  using assms
proof (induction ts arbitrary: w)
  case Nil
  show ?case by simp
next
  case (Cons t ts)
  have t: "run_calls (calls_of t) w = Inr \<lparr>fds = fds w @ rendering t, endings = endings w\<rparr>"
    by (rule Cons.prems) simp
  have ts: "run_calls (concat (map calls_of ts)) \<lparr>fds = fds w @ rendering t, endings = endings w\<rparr>
              = Inr \<lparr>fds = (fds w @ rendering t) @ concat (map rendering ts), endings = endings w\<rparr>"
    using Cons.IH [of "\<lparr>fds = fds w @ rendering t, endings = endings w\<rparr>"] Cons.prems by simp
  show ?case
    by (simp add: run_calls_append t ts and_then_def del: calls_of.simps rendering.simps)
qed

lemma run_calls_node:
  "run_calls (calls_of t) w = Inr \<lparr>fds = fds w @ rendering t, endings = endings w\<rparr>"
proof (induction t arbitrary: w)
  case (Node element_name kwargs tx cs)
  let ?w1 = "\<lparr>fds = fds w @ opening_writes element_name kwargs tx,
               endings = endings w @ [closing_tag element_name]\<rparr>"
  have kids: "run_calls (concat (map calls_of cs)) ?w1
                = Inr \<lparr>fds = fds ?w1 @ concat (map rendering cs), endings = endings ?w1\<rparr>"
    by (rule run_calls_forest) (rule Node.IH)
  have close: "run_calls [CloseTop] \<lparr>fds = fds ?w1 @ concat (map rendering cs), endings = endings ?w1\<rparr>
                = Inr \<lparr>fds = (fds ?w1 @ concat (map rendering cs)) @ [closing_tag element_name],
                       endings = endings w\<rparr>"
    by (simp add: and_then_def close_element_push)
  have "run_calls (calls_of (Node element_name kwargs tx cs)) w
          = and_then (run_calls (concat (map calls_of cs)) ?w1) (run_calls [CloseTop])"
    by (simp add: add_element_open run_calls_append and_then_def)
  also have "\<dots> = Inr \<lparr>fds = (fds ?w1 @ concat (map rendering cs)) @ [closing_tag element_name],
                       endings = endings w\<rparr>"
    unfolding kids using close by (simp add: and_then_def)
  finally show ?case by simp
qed

lemma run_calls_nodes:
  "run_calls (concat (map calls_of ts)) w
     = Inr \<lparr>fds = fds w @ concat (map rendering ts), endings = endings w\<rparr>"
  by (rule run_calls_forest) (rule run_calls_node)

lemma balanced_from_decompose:
  "balanced_from d cs \<Longrightarrow>
   \<exists>f fs. length fs = d
     \<and> cs = concat (map calls_of f) @ concat (map (\<lambda>g. CloseTop # concat (map calls_of g)) fs)"
proof (induction cs arbitrary: d)
  case Nil
  then have "d = 0" by simp
  then have "length ([]::node list list) = d
     \<and> [] = concat (map calls_of []) @ concat (map (\<lambda>g. CloseTop # concat (map calls_of g)) [])"
    by simp
  then show ?case by blast
next
  case (Cons c cs)
  show ?case
  proof (cases c)
    case (Open element_name kwargs tx)
    with Cons.prems have "balanced_from (Suc d) cs" by simp
    from Cons.IH [OF this] obtain f fs where len: "length fs = Suc d"
      and cs: "cs = concat (map calls_of f) @ concat (map (\<lambda>g. CloseTop # concat (map calls_of g)) fs)"
      by blast
    from len obtain f1 rest where fs: "fs = f1 # rest" and lr: "length rest = d"
      by (cases fs) auto
    have "c # cs = concat (map calls_of (Node element_name kwargs tx f # f1))
                   @ concat (map (\<lambda>g. CloseTop # concat (map calls_of g)) rest)"
      using Open cs fs by simp
    with lr show ?thesis by blast
  next
    case CloseTop
    with Cons.prems have pos: "0 < d" and "balanced_from (d - 1) cs" by simp_all
    from Cons.IH [OF this(2)] obtain f fs where len: "length fs = d - 1"
      and cs: "cs = concat (map calls_of f) @ concat (map (\<lambda>g. CloseTop # concat (map calls_of g)) fs)"
      by blast
    have "c # cs = concat (map calls_of [])
                   @ concat (map (\<lambda>g. CloseTop # concat (map calls_of g)) (f # fs))"
      using CloseTop cs by simp
    moreover have "length (f # fs) = d" using len pos by simp
    ultimately show ?thesis by blast
  qed
qed

lemma balanced_forest: "balanced cs \<Longrightarrow> \<exists>ts. cs = concat (map calls_of ts)"
  using balanced_from_decompose [of 0 cs] by (auto simp: balanced_def)

lemma emitted_closings_replicate:
  "emitted_closings (replicate (length xs) CloseTop) \<lparr>fds = f, endings = es @ xs\<rparr> = rev xs"
proof (induction xs arbitrary: f rule: rev_induct)
  case Nil
  show ?case by simp
next
  case (snoc x xs)
  have "close_element \<lparr>fds = f, endings = (es @ xs) @ [x]\<rparr> = Inr \<lparr>fds = f @ [x], endings = es @ xs\<rparr>"
    by (rule close_element_push)
  then show ?case using snoc.IH [of "f @ [x]"] by simp
qed

lemma emitted_closings_opens:
  "CloseTop \<notin> set os \<Longrightarrow>
   emitted_closings (os @ cs) w
     = emitted_closings cs
         \<lparr>fds = fds w @ concat (map (case_call opening_writes []) os),
          endings = endings w @ map closing_tag (opened_names os)\<rparr>"
proof (induction os arbitrary: w)
  case Nil
  show ?case by (cases w) simp
next
  case (Cons c os)
  then obtain element_name kwargs tx where c: "c = Open element_name kwargs tx"
    by (cases c) auto
  from Cons.prems have "CloseTop \<notin> set os" by simp
  from Cons.IH [OF this, of "add_element element_name tx False kwargs w"]
  show ?case by (simp add: c add_element_open)
qed

lemma opened_names_append: "opened_names (a @ b) = opened_names a @ opened_names b"
  by (induction a rule: opened_names.induct) simp_all

lemma opened_names_replicate: "opened_names (replicate n CloseTop) = []"
  by (induction n) simp_all

lemma length_opened_names: "CloseTop \<notin> set os \<Longrightarrow> length (opened_names os) = length os"
  by (induction os rule: opened_names.induct) simp_all

lemma emitted_closings_opens_then_closes:
  assumes "CloseTop \<notin> set os"
  shows "emitted_closings (os @ replicate (length os) CloseTop) w
           = rev (map closing_tag (opened_names (os @ replicate (length os) CloseTop)))"
proof -
  let ?xs = "map closing_tag (opened_names os)"
  have n: "length os = length ?xs" using assms by (simp add: length_opened_names)
  have "emitted_closings (os @ replicate (length os) CloseTop) w
          = emitted_closings (replicate (length ?xs) CloseTop)
              \<lparr>fds = fds w @ concat (map (case_call opening_writes []) os),
               endings = endings w @ ?xs\<rparr>"
    using emitted_closings_opens [OF assms] n by simp
  also have "\<dots> = rev ?xs" by (rule emitted_closings_replicate)
  finally show ?thesis by (simp add: opened_names_append opened_names_replicate)
qed

text \<open>
  C5 (as stated, refuted): the sequence open \<open>a\<close>, close, open \<open>b\<close>, close is balanced
  and ends with an empty stack; its close tags are written in the order \<open></a>\<close>,
  \<open></b>\<close>, which is the order of the open tags and not the reverse.
\<close>

theorem balanced_calls_counterexample:
  "balanced [Open ''a'' [] [], CloseTop, Open ''b'' [] [], CloseTop]
   \<and> run_calls [Open ''a'' [] [], CloseTop, Open ''b'' [] [], CloseTop] \<lparr>fds = [], endings = []\<rparr>
       = Inr \<lparr>fds = [''<a'', ''>'' @ nl, ''</a>'' @ nl, ''<b'', ''>'' @ nl, ''</b>'' @ nl], endings = []\<rparr>
   \<and> emitted_closings [Open ''a'' [] [], CloseTop, Open ''b'' [] [], CloseTop] \<lparr>fds = [], endings = []\<rparr>
       = [''</a>'' @ nl, ''</b>'' @ nl]
   \<and> rev (map closing_tag (opened_names [Open ''a'' [] [], CloseTop, Open ''b'' [] [], CloseTop]))
       = [''</b>'' @ nl, ''</a>'' @ nl]
   \<and> emitted_closings [Open ''a'' [] [], CloseTop, Open ''b'' [] [], CloseTop] \<lparr>fds = [], endings = []\<rparr>
       \<noteq> rev (map closing_tag (opened_names [Open ''a'' [] [], CloseTop, Open ''b'' [] [], CloseTop]))"
  by (simp add: balanced_def and_then_def add_element_def close_element_def fds_write_def
      closing_tag_def nl_def Let_def)

text \<open>
  C5 (amended): every balanced sequence of open (left open) and close calls is the call
  sequence of a list of elements with their nested children; running it returns normally,
  leaves the stack as it found it (empty when it started empty), and writes the rendering
  of those elements, in which the close tag of each element follows the renderings of its
  children: each close call writes the close tag of the most recently opened element that
  is still open. When no open call follows a close call, the close tags come in the exact
  reverse order of the open tags.
\<close>

theorem balanced_calls_nest:
  assumes "balanced cs"
  shows "(\<exists>ts w'. cs = concat (map calls_of ts)
            \<and> run_calls cs w = Inr w'
            \<and> fds w' = fds w @ concat (map rendering ts)
            \<and> endings w' = endings w)
         \<and> (CloseTop \<notin> set os \<and> cs = os @ replicate (length os) CloseTop \<longrightarrow>
              emitted_closings cs w = rev (map closing_tag (opened_names cs)))"
proof
  from balanced_forest [OF assms] obtain ts where ts: "cs = concat (map calls_of ts)" ..
  have "run_calls cs w = Inr \<lparr>fds = fds w @ concat (map rendering ts), endings = endings w\<rparr>"
    unfolding ts by (rule run_calls_nodes)
  with ts show "\<exists>ts w'. cs = concat (map calls_of ts)
            \<and> run_calls cs w = Inr w'
            \<and> fds w' = fds w @ concat (map rendering ts)
            \<and> endings w' = endings w"
    by auto
next
  show "CloseTop \<notin> set os \<and> cs = os @ replicate (length os) CloseTop \<longrightarrow>
              emitted_closings cs w = rev (map closing_tag (opened_names cs))"
    using emitted_closings_opens_then_closes [of os w] by blast
qed

theorem balanced_calls_nest_witness:
  "balanced [Open ''a'' [] [], Open ''b'' [] [], CloseTop, CloseTop]
   \<and> (\<exists>ts w'. [Open ''a'' [] [], Open ''b'' [] [], CloseTop, CloseTop] = concat (map calls_of ts)
         \<and> run_calls [Open ''a'' [] [], Open ''b'' [] [], CloseTop, CloseTop] \<lparr>fds = [], endings = []\<rparr> = Inr w'
         \<and> fds w' = concat (map rendering ts)
         \<and> endings w' = [])
   \<and> emitted_closings [Open ''a'' [] [], Open ''b'' [] [], CloseTop, CloseTop] \<lparr>fds = [], endings = []\<rparr>
       = [''</b>'' @ nl, ''</a>'' @ nl]"
proof -
  let ?cs = "[Open ''a'' [] [], Open ''b'' [] [], CloseTop, CloseTop]"
  have b: "balanced ?cs" by (simp add: balanced_def)
  have os: "CloseTop \<notin> set [Open ''a'' [] [], Open ''b'' [] []]
            \<and> ?cs = [Open ''a'' [] [], Open ''b'' [] []]
                     @ replicate (length [Open ''a'' [] [], Open ''b'' [] []]) CloseTop"
    by (simp add: numeral_2_eq_2)
  note inst = balanced_calls_nest [OF b, of "\<lparr>fds = [], endings = []\<rparr>" "[Open ''a'' [] [], Open ''b'' [] []]"]
  from inst have "\<exists>ts w'. ?cs = concat (map calls_of ts)
         \<and> run_calls ?cs \<lparr>fds = [], endings = []\<rparr> = Inr w'
         \<and> fds w' = fds \<lparr>fds = [], endings = []\<rparr> @ concat (map rendering ts)
         \<and> endings w' = endings \<lparr>fds = [], endings = []\<rparr>"
    by (rule conjunct1)
  then have 1: "\<exists>ts w'. ?cs = concat (map calls_of ts)
         \<and> run_calls ?cs \<lparr>fds = [], endings = []\<rparr> = Inr w'
         \<and> fds w' = concat (map rendering ts) \<and> endings w' = []"
    by (simp only: writer.select_convs append_Nil)
  from inst os
  have 2: "emitted_closings ?cs \<lparr>fds = [], endings = []\<rparr> = rev (map closing_tag (opened_names ?cs))"
    by blast
  from 2 have "emitted_closings ?cs \<lparr>fds = [], endings = []\<rparr> = [''</b>'' @ nl, ''</a>'' @ nl]"
    by (simp add: closing_tag_def)
  with b 1 show ?thesis by blast
qed

end
